theory Spec2Isabelle
  imports Main
begin

section \<open>The user table behind the ORM client\<close>

text \<open>
  Modelled from the spec: the generated \<open>User\<close> type is not part of the sources; the
  data model names the columns id, firstName, lastName, email, password and the nullable
  soft-delete marker deletedAt. Strings are compared exactly (case-sensitively), and a
  point in time is a number of milliseconds.
\<close>

type_synonym date = nat

record user =
  id' :: string
  firstName :: string
  lastName :: string
  email :: string
  password :: string
  deletedAt :: "date option"

text \<open>\<open>CreateUserDto\<close> (create-user.dto.ts): four required strings.\<close>

record CreateUserDto =
  firstName :: string
  lastName :: string
  email :: string
  password :: string

text \<open>
  Modelled from the spec: \<open>UpdateUserDto\<close> is not part of the sources; the spec calls it
  a partial-field patch whose provided fields are merged, so every field of the creation
  input is optional here.
\<close>

record UpdateUserDto =
  firstName :: "string option"
  lastName :: "string option"
  email :: "string option"
  password :: "string option"

text \<open>
  The table is the list of its rows in storage order. Its primary key is the id:
  \<open>update\<close> addresses a row by \<open>where: { id }\<close>, which the client accepts for unique
  columns only.
\<close>

type_synonym table = "user list"

definition wf_table :: "table \<Rightarrow> bool" where
  "wf_table rows = distinct (map id' rows)"

text \<open>
  A \<open>where\<close> object as the service writes them: each key is either left out or compared
  for equality; \<open>deletedAt: null\<close> is \<open>Some None\<close>.
\<close>

record user_where =
  where_id :: "string option"
  where_email :: "string option"
  where_deletedAt :: "date option option"

definition matches :: "user_where \<Rightarrow> user \<Rightarrow> bool" where
  "matches w u =
     ((case where_id w of None \<Rightarrow> True | Some i \<Rightarrow> id' u = i) \<and>
      (case where_email w of None \<Rightarrow> True | Some e \<Rightarrow> user.email u = e) \<and>
      (case where_deletedAt w of None \<Rightarrow> True | Some d \<Rightarrow> deletedAt u = d))"

text \<open>The \<open>data\<close> object of an update: a column that is left out keeps its value.\<close>

record user_data =
  data_firstName :: "string option"
  data_lastName :: "string option"
  data_email :: "string option"
  data_password :: "string option"
  data_deletedAt :: "date option option"

definition apply_data :: "user_data \<Rightarrow> user \<Rightarrow> user" where
  "apply_data d u =
     u\<lparr>user.firstName := (case data_firstName d of None \<Rightarrow> user.firstName u | Some v \<Rightarrow> v),
       user.lastName := (case data_lastName d of None \<Rightarrow> user.lastName u | Some v \<Rightarrow> v),
       user.email := (case data_email d of None \<Rightarrow> user.email u | Some v \<Rightarrow> v),
       user.password := (case data_password d of None \<Rightarrow> user.password u | Some v \<Rightarrow> v),
       deletedAt := (case data_deletedAt d of None \<Rightarrow> deletedAt u | Some v \<Rightarrow> v)\<rparr>"

text \<open>
  What a service call can throw: the two framework exceptions it raises itself, with
  their message, and a known-request error of the ORM client, with its code.
\<close>

datatype thrown =
    ConflictException string
  | NotFoundException string
  | PrismaKnownRequestError string

text \<open>\<open>prisma.user.findFirst\<close>: the first row that satisfies the filter, or null.\<close>

definition findFirst :: "user_where \<Rightarrow> table \<Rightarrow> user option" where
  "findFirst w rows = find (matches w) rows"

text \<open>\<open>prisma.user.findMany\<close>: every row that satisfies the filter.\<close>

definition findMany :: "user_where \<Rightarrow> table \<Rightarrow> user list" where
  "findMany w rows = filter (matches w) rows"

text \<open>
  Modelled from the spec: the schema is not part of the sources; the data model gives
  the email column as unique among non-deleted rows, and the filter's unique-constraint
  branch names duplicate emails as its cause. So the store refuses to write a
  non-deleted row whose email another non-deleted row already has.
\<close>

definition email_taken :: "user \<Rightarrow> user list \<Rightarrow> bool" where
  "email_taken r others =
     (deletedAt r = None \<and> (\<exists>v\<in>set others. deletedAt v = None \<and> user.email v = user.email r))"

text \<open>
  \<open>prisma.user.create\<close>: the store supplies the id (the argument \<open>new_id\<close>) and the
  default null for deletedAt; a primary key already in use, or an email taken, is a
  unique-constraint error (code P2002) and nothing is written.
\<close>

definition prisma_create :: "string \<Rightarrow> CreateUserDto \<Rightarrow> table \<Rightarrow> (thrown + user) \<times> table" where
  "prisma_create new_id d rows =
     (let row = \<lparr>id' = new_id,
                 user.firstName = CreateUserDto.firstName d,
                 user.lastName = CreateUserDto.lastName d,
                 user.email = CreateUserDto.email d,
                 user.password = CreateUserDto.password d,
                 deletedAt = None\<rparr>
      in if new_id \<in> set (map id' rows) \<or> email_taken row rows
         then (Inl (PrismaKnownRequestError ''P2002''), rows)
         else (Inr row, rows @ [row]))"

text \<open>
  \<open>prisma.user.update\<close>: rewrites the one row the filter selects and returns it; with no
  such row it fails with the record-not-found error (code P2025), and when the
  rewritten row would take the email of another row, with the unique-constraint error
  (code P2002); a failed update writes nothing.
\<close>

fun update_first :: "(user \<Rightarrow> bool) \<Rightarrow> (user \<Rightarrow> user) \<Rightarrow> table \<Rightarrow> table" where
  "update_first p f [] = []"
| "update_first p f (r # rows) = (if p r then f r # rows else r # update_first p f rows)"

definition prisma_update :: "user_where \<Rightarrow> user_data \<Rightarrow> table \<Rightarrow> (thrown + user) \<times> table" where
  "prisma_update w d rows =
     (case find (matches w) rows of
        None \<Rightarrow> (Inl (PrismaKnownRequestError ''P2025''), rows)
      | Some u \<Rightarrow>
          if email_taken (apply_data d u) (remove1 u rows)
          then (Inl (PrismaKnownRequestError ''P2002''), rows)
          else (Inr (apply_data d u), update_first (matches w) (apply_data d) rows))"

section \<open>UserService\<close>

text \<open>
  The environment of one \<open>create\<close> call: the id the store generates for the new row and
  the salt \<open>bcrypt.hash\<close> draws. The hash itself is a parameter \<open>hash\<close> of the model, taking
  the plaintext, the cost factor and the salt.
\<close>

record create_env =
  generated_id :: string
  salt :: string

type_synonym bcrypt = "string \<Rightarrow> nat \<Rightarrow> string \<Rightarrow> string"

definition create :: "bcrypt \<Rightarrow> create_env \<Rightarrow> CreateUserDto \<Rightarrow> table \<Rightarrow> (thrown + user) \<times> table" where
  "create hash env dto rows =
     (case findFirst \<lparr>where_id = None, where_email = Some (CreateUserDto.email dto),
                       where_deletedAt = Some None\<rparr> rows of
        Some existingUser \<Rightarrow> (Inl (ConflictException ''Email already exists''), rows)
      | None \<Rightarrow>
          (let hashedPassword = hash (CreateUserDto.password dto) 10 (salt env)
           in prisma_create (generated_id env)
                \<lparr>CreateUserDto.firstName = CreateUserDto.firstName dto,
                 CreateUserDto.lastName = CreateUserDto.lastName dto,
                 CreateUserDto.email = CreateUserDto.email dto,
                 CreateUserDto.password = hashedPassword\<rparr> rows))"

definition findById :: "string \<Rightarrow> table \<Rightarrow> thrown + user" where
  "findById i rows =
     (case findFirst \<lparr>where_id = Some i, where_email = None, where_deletedAt = Some None\<rparr> rows of
        None \<Rightarrow> Inl (NotFoundException ''User was not found'')
      | Some u \<Rightarrow> Inr u)"

definition findByEmail :: "string \<Rightarrow> table \<Rightarrow> user option" where
  "findByEmail e rows =
     findFirst \<lparr>where_id = None, where_email = Some e, where_deletedAt = Some None\<rparr> rows"

definition findAll :: "table \<Rightarrow> user list" where
  "findAll rows = findMany \<lparr>where_id = None, where_email = None, where_deletedAt = Some None\<rparr> rows"

definition update :: "string \<Rightarrow> UpdateUserDto \<Rightarrow> table \<Rightarrow> (thrown + user) \<times> table" where
  "update i dto rows =
     (case findFirst \<lparr>where_id = Some i, where_email = None, where_deletedAt = Some None\<rparr> rows of
        None \<Rightarrow> (Inl (NotFoundException ''User was not found''), rows)
      | Some u \<Rightarrow>
          prisma_update \<lparr>where_id = Some i, where_email = None, where_deletedAt = None\<rparr>
            \<lparr>data_firstName = UpdateUserDto.firstName dto,
             data_lastName = UpdateUserDto.lastName dto,
             data_email = UpdateUserDto.email dto,
             data_password = UpdateUserDto.password dto,
             data_deletedAt = None\<rparr> rows)"

text \<open>\<open>remove\<close> returns nothing; \<open>now\<close> is the value of \<open>new Date()\<close>.\<close>

definition remove :: "date \<Rightarrow> string \<Rightarrow> table \<Rightarrow> (thrown + unit) \<times> table" where
  "remove now i rows =
     (case findFirst \<lparr>where_id = Some i, where_email = None, where_deletedAt = Some None\<rparr> rows of
        None \<Rightarrow> (Inl (NotFoundException ''User was not found''), rows)
      | Some u \<Rightarrow>
          (case prisma_update \<lparr>where_id = Some i, where_email = None, where_deletedAt = Some None\<rparr>
                  \<lparr>data_firstName = None, data_lastName = None, data_email = None,
                   data_password = None, data_deletedAt = Some (Some now)\<rparr> rows of
             (Inl e, rows') \<Rightarrow> (Inl e, rows')
           | (Inr _, rows') \<Rightarrow> (Inr (), rows')))"

text \<open>
  One request to the service and the table it leaves behind; the reads write nothing.
  A run is a sequence of requests, each on the table the previous one left.
\<close>

datatype request =
    Create create_env CreateUserDto
  | FindById string
  | FindByEmail string
  | FindAll
  | Update string UpdateUserDto
  | Remove date string

fun table_after :: "bcrypt \<Rightarrow> request \<Rightarrow> table \<Rightarrow> table" where
  "table_after hash (Create env dto) rows = snd (create hash env dto rows)"
| "table_after hash (FindById i) rows = rows"
| "table_after hash (FindByEmail e) rows = rows"
| "table_after hash FindAll rows = rows"
| "table_after hash (Update i dto) rows = snd (update i dto rows)"
| "table_after hash (Remove now i) rows = snd (remove now i rows)"

fun run :: "bcrypt \<Rightarrow> request list \<Rightarrow> table \<Rightarrow> table" where
  "run hash [] rows = rows"
| "run hash (r # rs) rows = run hash rs (table_after hash r rows)"



section \<open>Values of the host language\<close>

text \<open>
  The exception filter inspects untyped values (\<open>as any\<close>), so the model has the
  values it can meet: undefined, null, booleans, numbers (integers only), strings, arrays
  and plain objects (their own properties, as an association list).
\<close>

datatype js_val =
    JUndefined
  | JNull
  | JBool bool
  | JNum int
  | JStr string
  | JArr "js_val list"
  | JObj "(string \<times> js_val) list"

text \<open>Truthiness, as \<open>||\<close> and \<open>if\<close> test it.\<close>

fun truthy :: "js_val \<Rightarrow> bool" where
  "truthy JUndefined = False"
| "truthy JNull = False"
| "truthy (JBool b) = b"
| "truthy (JNum n) = (n \<noteq> 0)"
| "truthy (JStr s) = (s \<noteq> [])"
| "truthy (JArr _) = True"
| "truthy (JObj _) = True"

text \<open>Reading a property of a plain object: undefined when the object has none.\<close>

definition get_prop :: "(string \<times> js_val) list \<Rightarrow> string \<Rightarrow> js_val" where
  "get_prop props k = (case map_of props k of None \<Rightarrow> JUndefined | Some v \<Rightarrow> v)"

text \<open>The error a failing property access or call raises inside the filter.\<close>

datatype js_error = TypeError

section \<open>Constants\<close>

definition INTERNAL_SERVER_ERROR :: string where "INTERNAL_SERVER_ERROR = ''Internal server error''"
definition VALIDATION_FAILED :: string where "VALIDATION_FAILED = ''Validation failed''"
definition BAD_REQUEST :: string where "BAD_REQUEST = ''Bad request''"
definition GENERIC_ERROR :: string where "GENERIC_ERROR = ''Error''"
definition RESOURCE_ALREADY_EXISTS :: string where "RESOURCE_ALREADY_EXISTS = ''Resource already exists''"
definition RELATED_RESOURCE_NOT_FOUND :: string where "RELATED_RESOURCE_NOT_FOUND = ''Related resource not found''"
definition RESOURCE_NOT_FOUND :: string where "RESOURCE_NOT_FOUND = ''Resource not found''"

definition UNIQUE_CONSTRAINT :: string where "UNIQUE_CONSTRAINT = ''P2002''"
definition FOREIGN_KEY_CONSTRAINT :: string where "FOREIGN_KEY_CONSTRAINT = ''P2003''"
definition RECORD_NOT_FOUND :: string where "RECORD_NOT_FOUND = ''P2025''"

text \<open>The members of the framework's \<open>HttpStatus\<close> that the filter names.\<close>

definition HttpStatus_BAD_REQUEST :: nat where "HttpStatus_BAD_REQUEST = 400"
definition HttpStatus_NOT_FOUND :: nat where "HttpStatus_NOT_FOUND = 404"
definition HttpStatus_CONFLICT :: nat where "HttpStatus_CONFLICT = 409"
definition HttpStatus_INTERNAL_SERVER_ERROR :: nat where "HttpStatus_INTERNAL_SERVER_ERROR = 500"

section \<open>HttpExceptionFilter\<close>

text \<open>
  What \<open>catch\<close> can be handed, by the \<open>instanceof\<close> tests it makes. An \<open>HttpException\<close>
  carries whether it is a \<open>BadRequestException\<close>, its status and its response, which is a
  string or an object (\<open>getResponse(): string | object\<close>).
\<close>

datatype response = RString string | RObject "(string \<times> js_val) list"

datatype exception =
    HttpException bool nat response
  | PrismaClientKnownRequestError string
  | PrismaClientValidationError string
  | Unclassified

text \<open>\<open>msg.split(' ')\<close>: the pieces between the occurrences of the separator.\<close>

fun split :: "char \<Rightarrow> string \<Rightarrow> string list" where
  "split sep [] = [[]]"
| "split sep (c # cs) =
     (if c = sep then [] # split sep cs
      else (case split sep cs of [] \<Rightarrow> [[c]] | w # ws \<Rightarrow> (c # w) # ws))"

text \<open>
  \<open>msg.split(' ')[0]\<close>; index 0 of an empty array would be undefined, which as a
  property key reads \<open>undefined\<close>.
\<close>

definition field_of :: "string \<Rightarrow> string" where
  "field_of msg = (case split (CHR '' '') msg of [] \<Rightarrow> ''undefined'' | f # _ \<Rightarrow> f)"

text \<open>
  The accumulator \<open>errors\<close> starts as the object literal \<open>{}\<close>, so reading \<open>errors[field]\<close>
  finds, for a key the loop has not stored yet, whatever a plain object inherits under
  that name: a function or object (truthy, without \<open>push\<close>) for the names below, undefined
  for every other name.
\<close>

definition object_prototype_keys :: "string list" where
  "object_prototype_keys =
     [''constructor'', ''__defineGetter__'', ''__defineSetter__'', ''hasOwnProperty'',
      ''__lookupGetter__'', ''__lookupSetter__'', ''isPrototypeOf'', ''propertyIsEnumerable'',
      ''toString'', ''valueOf'', ''__proto__'', ''toLocaleString'']"

text \<open>
  The loop of \<open>formatValidationErrors\<close>, on the array as it arrives at run time: an
  element that is not a string has no \<open>split\<close>.
\<close>

fun format_loop :: "(string \<rightharpoonup> string list) \<Rightarrow> js_val list \<Rightarrow> js_error + (string \<rightharpoonup> string list)" where
  "format_loop errors [] = Inr errors"
| "format_loop errors (JStr msg # messages) =
     (let field = field_of msg;
          errors1 = (if errors field = None \<and> field \<notin> set object_prototype_keys
                     then errors(field \<mapsto> []) else errors)
      in case errors1 field of
           Some arr \<Rightarrow> format_loop (errors1(field \<mapsto> arr @ [msg])) messages
         | None \<Rightarrow> Inl TypeError)"
| "format_loop errors (_ # messages) = Inl TypeError"

definition formatValidationErrors :: "js_val list \<Rightarrow> js_error + (string \<rightharpoonup> string list)" where
  "formatValidationErrors messages = format_loop Map.empty messages"

text \<open>The JSON body the filter sends, and the lines it logs.\<close>

record envelope =
  success :: bool
  statusCode :: nat
  message :: js_val
  errors :: "(string \<rightharpoonup> string list) option"
  timestamp :: string
  path :: string

definition respond :: "string \<Rightarrow> string \<Rightarrow> nat \<Rightarrow> js_val \<Rightarrow> (string \<rightharpoonup> string list) option \<Rightarrow> envelope" where
  "respond now url st msg errs =
     \<lparr>success = False, statusCode = st, message = msg, errors = errs,
      timestamp = now, path = url\<rparr>"

text \<open>
  \<open>catch\<close>: \<open>now\<close> is \<open>new Date().toISOString()\<close> and \<open>url\<close> is \<open>request.url\<close>. The result
  is the body sent with the log lines written, or the error raised inside the filter.
\<close>

definition typeof_object :: "response \<Rightarrow> bool" where
  "typeof_object r = (case r of RString _ \<Rightarrow> False | RObject _ \<Rightarrow> True)"

definition has_property :: "string \<Rightarrow> response \<Rightarrow> bool" where
  "has_property k r = (case r of RString _ \<Rightarrow> False | RObject props \<Rightarrow> map_of props k \<noteq> None)"

definition property :: "response \<Rightarrow> string \<Rightarrow> js_val" where
  "property r k = (case r of RString _ \<Rightarrow> JUndefined | RObject props \<Rightarrow> get_prop props k)"

definition "catch" :: "string \<Rightarrow> string \<Rightarrow> exception \<Rightarrow> js_error + (envelope \<times> string list)" where
  "catch now url exception =
     (case exception of
        HttpException isBadRequest status exceptionResponse \<Rightarrow>
          (if isBadRequest \<and> typeof_object exceptionResponse \<and>
              has_property ''message'' exceptionResponse
           then
             (case property exceptionResponse ''message'' of
                JArr msg \<Rightarrow>
                  (case formatValidationErrors msg of
                     Inl e \<Rightarrow> Inl e
                   | Inr errs \<Rightarrow>
                       Inr (respond now url status (JStr VALIDATION_FAILED) (Some errs), []))
              | JStr msg \<Rightarrow> Inr (respond now url status (JStr msg) None, [])
              | _ \<Rightarrow> Inr (respond now url status (JStr BAD_REQUEST) None, []))
           else
             Inr (respond now url status
                    (case exceptionResponse of
                       RString s \<Rightarrow> JStr s
                     | RObject props \<Rightarrow>
                         (if truthy (get_prop props ''message'') then get_prop props ''message''
                          else JStr GENERIC_ERROR))
                    None, []))
      | PrismaClientKnownRequestError code \<Rightarrow>
          (if code = UNIQUE_CONSTRAINT then
             Inr (respond now url HttpStatus_CONFLICT (JStr RESOURCE_ALREADY_EXISTS) None, [])
           else if code = FOREIGN_KEY_CONSTRAINT then
             Inr (respond now url HttpStatus_BAD_REQUEST (JStr RELATED_RESOURCE_NOT_FOUND) None, [])
           else if code = RECORD_NOT_FOUND then
             Inr (respond now url HttpStatus_NOT_FOUND (JStr RESOURCE_NOT_FOUND) None, [])
           else
             Inr (respond now url HttpStatus_INTERNAL_SERVER_ERROR (JStr INTERNAL_SERVER_ERROR) None,
                  [''Unhandled Prisma error:'']))
      | PrismaClientValidationError m \<Rightarrow>
          Inr (respond now url HttpStatus_INTERNAL_SERVER_ERROR (JStr INTERNAL_SERVER_ERROR) None,
               [''Prisma validation error (bug in code):''])
      | Unclassified \<Rightarrow>
          Inr (respond now url HttpStatus_INTERNAL_SERVER_ERROR (JStr INTERNAL_SERVER_ERROR) None,
               [''Unhandled exception:'']))"

text \<open>
  The validation case of the filter: a \<open>BadRequestException\<close> whose response is an object
  with an array under \<open>message\<close>.
\<close>

definition is_validation_case :: "exception \<Rightarrow> bool" where
  "is_validation_case exc =
     (case exc of
        HttpException isBadRequest _ (RObject props) \<Rightarrow>
          isBadRequest \<and> (case map_of props ''message'' of Some (JArr _) \<Rightarrow> True | _ \<Rightarrow> False)
      | _ \<Rightarrow> False)"

text \<open>
  The grouping as the specification words it, for comparison with the code: the key
  of a message is its first whitespace-separated token, and each key holds its messages
  in order.
\<close>

definition is_whitespace :: "char \<Rightarrow> bool" where
  "is_whitespace c = (c \<in> set [CHR '' '', CHR 0x09, CHR 0x0A, CHR 0x0B, CHR 0x0C, CHR 0x0D])"

definition first_token_spec :: "string \<Rightarrow> string" where
  "first_token_spec msg = takeWhile (\<lambda>c. \<not> is_whitespace c) (dropWhile is_whitespace msg)"

definition group_by_key :: "(string \<Rightarrow> string) \<Rightarrow> string list \<Rightarrow> (string \<rightharpoonup> string list)" where
  "group_by_key key messages =
     (\<lambda>k. if k \<in> set (map key messages) then Some (filter (\<lambda>m. key m = k) messages) else None)"

section \<open>TransformResponseInterceptor\<close>

text \<open>
  \<open>reflector.getAllAndOverride(key, targets)\<close>: the metadata of the first target that
  defines any. The targets are the handler and then its class.
\<close>

fun getAllAndOverride :: "'a option list \<Rightarrow> 'a option" where
  "getAllAndOverride [] = None"
| "getAllAndOverride (None # targets) = getAllAndOverride targets"
| "getAllAndOverride (Some v # targets) = Some v"

text \<open>
  Modelled from the spec: the skip-transform decorator is not part of the sources; the
  spec calls it a per-handler or per-class marker, so a marked target carries the
  metadata value true and an unmarked one carries none.
\<close>

definition marker :: "bool \<Rightarrow> bool option" where
  "marker marked = (if marked then Some True else None)"

text \<open>
  \<open>intercept\<close> on the value the handler produces; \<open>now\<close> is \<open>new Date().toISOString()\<close>.
  Undefined metadata is falsy.
\<close>

definition intercept :: "string \<Rightarrow> bool option \<Rightarrow> bool option \<Rightarrow> js_val \<Rightarrow> js_val" where
  "intercept now handler_meta class_meta data =
     (let skip = getAllAndOverride [handler_meta, class_meta] in
      if (case skip of None \<Rightarrow> False | Some b \<Rightarrow> b) then data
      else JObj [(''success'', JBool True), (''data'', data), (''timestamp'', JStr now)])"

section \<open>Sample data\<close>

text \<open>Concrete rows and inputs on which the theorems below are exercised.\<close>

definition toy_hash :: bcrypt where
  "toy_hash plain cost salt_value = salt_value @ plain"

definition alice :: user where
  "alice = \<lparr>id' = ''u1'', user.firstName = ''Alice'', user.lastName = ''Ng'',
            user.email = ''alice@example.com'', user.password = ''h1'', deletedAt = None\<rparr>"

definition bob :: user where
  "bob = \<lparr>id' = ''u2'', user.firstName = ''Bob'', user.lastName = ''Roy'',
          user.email = ''bob@example.com'', user.password = ''h2'', deletedAt = Some 1000\<rparr>"

definition bob_again :: CreateUserDto where
  "bob_again = \<lparr>CreateUserDto.firstName = ''Bob'', CreateUserDto.lastName = ''Roy'',
                CreateUserDto.email = ''bob@example.com'', CreateUserDto.password = ''password1''\<rparr>"

definition rename :: UpdateUserDto where
  "rename = \<lparr>UpdateUserDto.firstName = Some ''Al'', UpdateUserDto.lastName = None,
             UpdateUserDto.email = None, UpdateUserDto.password = None\<rparr>"

definition alice_dto :: CreateUserDto where
  "alice_dto = \<lparr>CreateUserDto.firstName = ''Alice'', CreateUserDto.lastName = ''Ng'',
                CreateUserDto.email = ''alice@example.com'', CreateUserDto.password = ''password0''\<rparr>"

definition alice_capital_dto :: CreateUserDto where
  "alice_capital_dto = \<lparr>CreateUserDto.firstName = ''Alice'', CreateUserDto.lastName = ''Ng'',
                        CreateUserDto.email = ''Alice@example.com'', CreateUserDto.password = ''password0''\<rparr>"

definition carol_dto :: CreateUserDto where
  "carol_dto = \<lparr>CreateUserDto.firstName = ''Carol'', CreateUserDto.lastName = ''Diaz'',
                CreateUserDto.email = ''carol@example.com'', CreateUserDto.password = ''password2''\<rparr>"


definition tab_message :: string where
  "tab_message = ''email'' @ [CHR 0x09] @ ''must be an email''"

section \<open>Lemmas on the table operations\<close>

lemma find_None_iff_no_match: "find p xs = None \<longleftrightarrow> (\<forall>x\<in>set xs. \<not> p x)"
  by (induction xs) auto

lemma find_Some_in_set: "find p xs = Some x \<Longrightarrow> x \<in> set xs \<and> p x"
  by (induction xs) (auto split: if_splits)

lemma update_first_length: "length (update_first p f rows) = length rows"
  by (induction rows) auto

lemma update_first_keeps:
  "u \<in> set rows \<Longrightarrow> \<not> p u \<Longrightarrow> u \<in> set (update_first p f rows)"
  by (induction rows) auto

lemma update_first_ids:
  "(\<And>r. id' (f r) = id' r) \<Longrightarrow> map id' (update_first p f rows) = map id' rows"
  by (induction rows) auto

lemma update_first_index:
  "find p rows = Some u \<Longrightarrow>
   \<exists>k<length rows. rows ! k = u \<and> update_first p f rows = rows[k := f u]"
proof (induction rows)
  case Nil
  then show ?case by simp
next
  case (Cons r rows)
  show ?case
  proof (cases "p r")
    case True
    with Cons.prems have "r = u" by simp
    with True have "(r # rows) ! 0 = u \<and> update_first p f (r # rows) = (r # rows)[0 := f u]"
      by simp
    then show ?thesis by blast
  next
    case False
    with Cons.prems have "find p rows = Some u" by simp
    from Cons.IH [OF this] obtain k where
      k: "k < length rows" "rows ! k = u" "update_first p f rows = rows[k := f u]"
      by blast
    with False have "Suc k < length (r # rows) \<and> (r # rows) ! Suc k = u \<and>
        update_first p f (r # rows) = (r # rows)[Suc k := f u]"
      by simp
    then show ?thesis by blast
  qed
qed

lemma id_apply_data: "id' (apply_data d r) = id' r"
  by (simp add: apply_data_def)

lemma wf_find_unique:
  "wf_table rows \<Longrightarrow> u \<in> set rows \<Longrightarrow> find p rows = Some v \<Longrightarrow> id' v = id' u \<Longrightarrow> v = u"
  using find_Some_in_set [of p rows v]
  by (auto simp: wf_table_def distinct_map inj_on_def)

lemma create_cases:
  "create hash env dto rows = (res, rows') \<Longrightarrow>
   rows' = rows \<or>
   (\<exists>row. rows' = rows @ [row] \<and> id' row \<notin> set (map id' rows) \<and> deletedAt row = None \<and>
          \<not> email_taken row rows)"
  by (auto simp: create_def prisma_create_def Let_def split: option.splits if_splits)

lemma wf_create: "wf_table rows \<Longrightarrow> wf_table (snd (create hash env dto rows))"
  using create_cases [of hash env dto rows "fst (create hash env dto rows)" "snd (create hash env dto rows)"]
  by (auto simp: wf_table_def)

lemma prisma_update_cases:
  "prisma_update w d rows = (res, rows') \<Longrightarrow>
   rows' = rows \<or>
   (\<exists>u. find (matches w) rows = Some u \<and> res = Inr (apply_data d u) \<and>
        \<not> email_taken (apply_data d u) (remove1 u rows) \<and>
        rows' = update_first (matches w) (apply_data d) rows)"
  by (auto simp: prisma_update_def split: option.splits if_splits)

lemma wf_prisma_update: "wf_table rows \<Longrightarrow> wf_table (snd (prisma_update w d rows))"
  using prisma_update_cases [of w d rows "fst (prisma_update w d rows)" "snd (prisma_update w d rows)"]
  by (auto simp: wf_table_def update_first_ids id_apply_data)

lemma snd_remove: "snd (remove now i rows) = rows \<or>
   snd (remove now i rows) =
     snd (prisma_update \<lparr>where_id = Some i, where_email = None, where_deletedAt = Some None\<rparr>
            \<lparr>data_firstName = None, data_lastName = None, data_email = None,
             data_password = None, data_deletedAt = Some (Some now)\<rparr> rows)"
  by (auto simp: remove_def split: option.splits prod.splits sum.splits)

lemma snd_update: "snd (update i dto rows) = rows \<or>
   (findFirst \<lparr>where_id = Some i, where_email = None, where_deletedAt = Some None\<rparr> rows \<noteq> None \<and>
    snd (update i dto rows) =
     snd (prisma_update \<lparr>where_id = Some i, where_email = None, where_deletedAt = None\<rparr>
            \<lparr>data_firstName = UpdateUserDto.firstName dto,
             data_lastName = UpdateUserDto.lastName dto,
             data_email = UpdateUserDto.email dto,
             data_password = UpdateUserDto.password dto,
             data_deletedAt = None\<rparr> rows))"
  by (auto simp: update_def split: option.splits)

lemma wf_update: "wf_table rows \<Longrightarrow> wf_table (snd (update i dto rows))"
  using snd_update [of i dto rows] by (auto simp: wf_prisma_update)

lemma wf_remove: "wf_table rows \<Longrightarrow> wf_table (snd (remove now i rows))"
  using snd_remove [of now i rows] by (auto simp: wf_prisma_update)

lemma wf_table_after: "wf_table rows \<Longrightarrow> wf_table (table_after hash r rows)"
  by (cases r) (simp_all add: wf_create wf_update wf_remove)

lemma wf_run: "wf_table rows \<Longrightarrow> wf_table (run hash rs rows)"
  by (induction rs arbitrary: rows) (simp_all add: wf_table_after)

lemma wf_reachable: "wf_table (run hash rs [])"
  by (rule wf_run) (simp add: wf_table_def)

lemma deleted_not_found:
  assumes "wf_table rows" "u \<in> set rows" "deletedAt u \<noteq> None"
  shows "findFirst \<lparr>where_id = Some (id' u), where_email = None, where_deletedAt = Some None\<rparr> rows = None"
proof (rule ccontr)
  assume "findFirst \<lparr>where_id = Some (id' u), where_email = None, where_deletedAt = Some None\<rparr> rows \<noteq> None"
  then obtain v where v: "find (matches \<lparr>where_id = Some (id' u), where_email = None, where_deletedAt = Some None\<rparr>) rows = Some v"
    by (auto simp: findFirst_def)
  from find_Some_in_set [OF v] have "id' v = id' u" "deletedAt v = None"
    by (simp_all add: matches_def)
  with wf_find_unique [OF assms(1,2) v] assms(3) show False by simp
qed

lemma deleted_kept_by_create:
  "u \<in> set rows \<Longrightarrow> u \<in> set (snd (create hash env dto rows))"
  using create_cases [of hash env dto rows "fst (create hash env dto rows)" "snd (create hash env dto rows)"]
  by auto

lemma deleted_kept_by_update:
  assumes "wf_table rows" "u \<in> set rows" "deletedAt u \<noteq> None"
  shows "u \<in> set (snd (update i dto rows))"
proof (cases "findFirst \<lparr>where_id = Some i, where_email = None, where_deletedAt = Some None\<rparr> rows")
  case None
  then show ?thesis using assms(2) by (simp add: update_def)
next
  case (Some v)
  then have v: "find (matches \<lparr>where_id = Some i, where_email = None, where_deletedAt = Some None\<rparr>) rows = Some v"
    by (simp add: findFirst_def)
  from find_Some_in_set [OF v] have iv: "id' v = i" "deletedAt v = None"
    by (simp_all add: matches_def)
  have "id' u \<noteq> i"
  proof
    assume "id' u = i"
    with wf_find_unique [OF assms(1,2) v] iv assms(3) show False by simp
  qed
  then have "\<not> matches \<lparr>where_id = Some i, where_email = None, where_deletedAt = None\<rparr> u"
    by (simp add: matches_def)
  with assms(2) have "\<And>f. u \<in> set (update_first
      (matches \<lparr>where_id = Some i, where_email = None, where_deletedAt = None\<rparr>) f rows)"
    by (simp add: update_first_keeps)
  then show ?thesis
    using assms(2) by (simp add: update_def prisma_update_def Some split: option.splits)
qed

lemma deleted_kept_by_remove:
  assumes "u \<in> set rows" "deletedAt u \<noteq> None"
  shows "u \<in> set (snd (remove now i rows))"
proof -
  have "\<not> matches \<lparr>where_id = Some i, where_email = None, where_deletedAt = Some None\<rparr> u"
    using assms(2) by (simp add: matches_def)
  with assms(1) have "\<And>f. u \<in> set (update_first
      (matches \<lparr>where_id = Some i, where_email = None, where_deletedAt = Some None\<rparr>) f rows)"
    by (simp add: update_first_keeps)
  then show ?thesis
    using assms(1) by (simp add: remove_def prisma_update_def split: option.splits)
qed

lemma deleted_kept_by_request:
  "wf_table rows \<Longrightarrow> u \<in> set rows \<Longrightarrow> deletedAt u \<noteq> None \<Longrightarrow> u \<in> set (table_after hash r rows)"
  by (cases r) (simp_all add: deleted_kept_by_create deleted_kept_by_update deleted_kept_by_remove)

lemma deleted_kept_by_run:
  "wf_table rows \<Longrightarrow> u \<in> set rows \<Longrightarrow> deletedAt u \<noteq> None \<Longrightarrow> u \<in> set (run hash rs rows)"
  by (induction rs arbitrary: rows) (simp_all add: deleted_kept_by_request wf_table_after)


lemma no_active_row_not_found:
  assumes "\<forall>u\<in>set rows. id' u = i \<longrightarrow> deletedAt u \<noteq> None"
  shows "update i patch rows = (Inl (NotFoundException ''User was not found''), rows) \<and>
         remove now i rows = (Inl (NotFoundException ''User was not found''), rows)"
proof -
  have "find (matches \<lparr>where_id = Some i, where_email = None, where_deletedAt = Some None\<rparr>) rows = None"
    using assms by (auto simp: find_None_iff_no_match matches_def)
  then show ?thesis
    by (simp add: update_def remove_def findFirst_def)
qed









text \<open>
  The check in \<open>create\<close> comes first: the only unique-constraint error that can still
  reach its caller is a collision of the generated id.
\<close>

lemma create_unique_constraint_only_on_id:
  assumes "fst (create hash env dto rows) = Inl (PrismaKnownRequestError c)"
  shows "generated_id env \<in> set (map id' rows)"
proof (cases "find (matches \<lparr>where_id = None, where_email = Some (CreateUserDto.email dto),
                              where_deletedAt = Some None\<rparr>) rows")
  case None
  then have "\<forall>v\<in>set rows. deletedAt v = None \<longrightarrow> user.email v \<noteq> CreateUserDto.email dto"
    by (auto simp: find_None_iff_no_match matches_def)
  with assms None show ?thesis
    by (auto simp: create_def findFirst_def prisma_create_def email_taken_def Let_def
        split: if_splits)
next
  case (Some v)
  with assms show ?thesis by (simp add: create_def findFirst_def)
qed

section \<open>Lemmas on the grouping of validation messages\<close>

lemma split_takeWhile:
  "split sep s \<noteq> [] \<and> hd (split sep s) = takeWhile (\<lambda>c. c \<noteq> sep) s"
  by (induction s) (auto split: list.splits)

lemma field_of_takeWhile: "field_of msg = takeWhile (\<lambda>c. c \<noteq> CHR '' '') msg"
  using split_takeWhile [of "CHR '' ''" msg]
  by (cases "split (CHR '' '') msg") (auto simp: field_of_def)

lemma format_loop_strings:
  "\<forall>m\<in>set messages. field_of m \<notin> set object_prototype_keys \<Longrightarrow>
   format_loop acc (map JStr messages) =
     Inr (\<lambda>k. if k \<in> set (map field_of messages)
               then Some ((case acc k of None \<Rightarrow> [] | Some arr \<Rightarrow> arr) @
                          filter (\<lambda>m. field_of m = k) messages)
               else acc k)"
proof (induction messages arbitrary: acc)
  case Nil
  then show ?case by simp
next
  case (Cons m ms)
  then have ok: "field_of m \<notin> set object_prototype_keys"
    and rest: "\<forall>x\<in>set ms. field_of x \<notin> set object_prototype_keys"
    by simp_all
  define old where "old = (case acc (field_of m) of None \<Rightarrow> [] | Some arr \<Rightarrow> arr)"
  have step: "format_loop acc (map JStr (m # ms)) =
      format_loop (acc(field_of m \<mapsto> old @ [m])) (map JStr ms)"
    using ok by (simp add: Let_def old_def split: option.splits)
  have merged: "(\<lambda>k. if k \<in> set (map field_of ms)
               then Some ((case (acc(field_of m \<mapsto> old @ [m])) k of None \<Rightarrow> [] | Some arr \<Rightarrow> arr) @
                          filter (\<lambda>x. field_of x = k) ms)
               else (acc(field_of m \<mapsto> old @ [m])) k) =
        (\<lambda>k. if k \<in> set (map field_of (m # ms))
               then Some ((case acc k of None \<Rightarrow> [] | Some arr \<Rightarrow> arr) @
                          filter (\<lambda>x. field_of x = k) (m # ms))
               else acc k)"
    by (rule ext) (auto simp: old_def filter_empty_conv empty_filter_conv image_iff dest: sym)
  show ?case
    unfolding step Cons.IH [OF rest] merged ..
qed

text \<open>
  A message filed under a name that the empty object literal inherits: the lookup is
  truthy, no array is stored, and \<open>push\<close> is missing.
\<close>

lemma inherited_key_raises:
  "formatValidationErrors [JStr ''constructor must be a string''] = Inl TypeError"
  by (simp add: formatValidationErrors_def field_of_def object_prototype_keys_def Let_def)

section \<open>Claims\<close>

text \<open>
  C1. If some non-deleted user has the same email (exact string equality), \<open>create\<close>
  fails with a Conflict error and writes nothing; otherwise, the generated id being
  unused, it appends one row whose password column is the salted hash of the input
  password and returns that row, hash included.
\<close>

theorem create_conflict_or_persist:
  "((\<exists>u\<in>set rows. deletedAt u = None \<and> user.email u = CreateUserDto.email dto) \<longrightarrow>
      create hash env dto rows = (Inl (ConflictException ''Email already exists''), rows)) \<and>
   (\<not> (\<exists>u\<in>set rows. deletedAt u = None \<and> user.email u = CreateUserDto.email dto) \<and>
    generated_id env \<notin> set (map id' rows) \<longrightarrow>
      create hash env dto rows =
        (Inr \<lparr>id' = generated_id env,
              user.firstName = CreateUserDto.firstName dto,
              user.lastName = CreateUserDto.lastName dto,
              user.email = CreateUserDto.email dto,
              user.password = hash (CreateUserDto.password dto) 10 (salt env),
              deletedAt = None\<rparr>,
         rows @ [\<lparr>id' = generated_id env,
              user.firstName = CreateUserDto.firstName dto,
              user.lastName = CreateUserDto.lastName dto,
              user.email = CreateUserDto.email dto,
              user.password = hash (CreateUserDto.password dto) 10 (salt env),
              deletedAt = None\<rparr>]))"
proof -
  let ?w = "\<lparr>where_id = None, where_email = Some (CreateUserDto.email dto), where_deletedAt = Some None\<rparr>"
  have none: "find (matches ?w) rows = None \<longleftrightarrow>
      \<not> (\<exists>u\<in>set rows. deletedAt u = None \<and> user.email u = CreateUserDto.email dto)"
    by (auto simp: find_None_iff_no_match matches_def)
  show ?thesis
  proof (cases "find (matches ?w) rows")
    case None
    with none show ?thesis
      by (auto simp: create_def findFirst_def prisma_create_def email_taken_def Let_def)
  next
    case (Some v)
    with none show ?thesis
      by (simp add: create_def findFirst_def)
  qed
qed

text \<open>
  On a table holding Alice: her own email is refused, the same email with a capital
  letter is not, and Carol is stored with the hash of her password.
\<close>

theorem create_conflict_or_persist_witness:
  "create toy_hash \<lparr>generated_id = ''u3'', salt = ''s''\<rparr> alice_dto [alice, bob] =
     (Inl (ConflictException ''Email already exists''), [alice, bob]) \<and>
   create toy_hash \<lparr>generated_id = ''u3'', salt = ''s''\<rparr> alice_capital_dto [alice, bob] =
     (Inr \<lparr>id' = ''u3'', user.firstName = ''Alice'', user.lastName = ''Ng'',
           user.email = ''Alice@example.com'', user.password = ''spassword0'', deletedAt = None\<rparr>,
      [alice, bob,
       \<lparr>id' = ''u3'', user.firstName = ''Alice'', user.lastName = ''Ng'',
        user.email = ''Alice@example.com'', user.password = ''spassword0'', deletedAt = None\<rparr>]) \<and>
   create toy_hash \<lparr>generated_id = ''u3'', salt = ''s''\<rparr> carol_dto [alice, bob] =
     (Inr \<lparr>id' = ''u3'', user.firstName = ''Carol'', user.lastName = ''Diaz'',
           user.email = ''carol@example.com'', user.password = ''spassword2'', deletedAt = None\<rparr>,
      [alice, bob,
       \<lparr>id' = ''u3'', user.firstName = ''Carol'', user.lastName = ''Diaz'',
        user.email = ''carol@example.com'', user.password = ''spassword2'', deletedAt = None\<rparr>])"
  using create_conflict_or_persist [of "[alice, bob]" alice_dto toy_hash
      "\<lparr>generated_id = ''u3'', salt = ''s''\<rparr>"]
    create_conflict_or_persist [of "[alice, bob]" alice_capital_dto toy_hash
      "\<lparr>generated_id = ''u3'', salt = ''s''\<rparr>"]
    create_conflict_or_persist [of "[alice, bob]" carol_dto toy_hash
      "\<lparr>generated_id = ''u3'', salt = ''s''\<rparr>"]
  by (simp add: alice_def bob_def alice_dto_def alice_capital_dto_def carol_dto_def toy_hash_def)



text \<open>
  C3. For a soft-deleted row \<open>u\<close> of a table with unique ids: \<open>findById\<close> on its id
  fails with NotFound, \<open>findAll\<close> leaves it out, a Conflict from \<open>create\<close> with its
  email is always due to another, non-deleted row (so there is none when every row
  with that email is soft-deleted), and \<open>u\<close> is still stored after each of the three.
\<close>

theorem soft_deleted_hidden_but_stored:
  assumes "wf_table rows" and "u \<in> set rows" and "deletedAt u \<noteq> None"
    and "CreateUserDto.email dto = user.email u"
  shows "findById (id' u) rows = Inl (NotFoundException ''User was not found'') \<and>
         u \<notin> set (findAll rows) \<and>
         (\<forall>m. fst (create hash env dto rows) = Inl (ConflictException m) \<longrightarrow>
              (\<exists>v\<in>set rows. v \<noteq> u \<and> deletedAt v = None \<and> user.email v = user.email u)) \<and>
         ((\<forall>v\<in>set rows. user.email v = user.email u \<longrightarrow> deletedAt v \<noteq> None) \<longrightarrow>
              (\<forall>m. fst (create hash env dto rows) \<noteq> Inl (ConflictException m))) \<and>
         u \<in> set (table_after hash (FindById (id' u)) rows) \<and>
         u \<in> set (table_after hash FindAll rows) \<and>
         u \<in> set (table_after hash (Create env dto) rows)"
proof -
  have byId: "findById (id' u) rows = Inl (NotFoundException ''User was not found'')"
    using deleted_not_found [OF assms(1-3)] by (simp add: findById_def)
  have all: "u \<notin> set (findAll rows)"
    using assms(3) by (simp add: findAll_def findMany_def matches_def)
  have conflict: "\<exists>v\<in>set rows. v \<noteq> u \<and> deletedAt v = None \<and> user.email v = user.email u"
    if "fst (create hash env dto rows) = Inl (ConflictException m)" for m
  proof -
    let ?w = "\<lparr>where_id = None, where_email = Some (CreateUserDto.email dto), where_deletedAt = Some None\<rparr>"
    from that obtain v where v: "find (matches ?w) rows = Some v"
      by (cases "find (matches ?w) rows")
         (auto simp: create_def findFirst_def prisma_create_def Let_def split: if_splits)
    from find_Some_in_set [OF v] have "v \<in> set rows" "deletedAt v = None" "user.email v = user.email u"
      using assms(4) by (simp_all add: matches_def)
    moreover from this assms(3) have "v \<noteq> u" by auto
    ultimately show ?thesis by blast
  qed
  have kept: "u \<in> set (table_after hash (Create env dto) rows)"
    using assms(2) by (simp add: deleted_kept_by_create)
  have free: "\<forall>m. fst (create hash env dto rows) \<noteq> Inl (ConflictException m)"
    if "\<forall>v\<in>set rows. user.email v = user.email u \<longrightarrow> deletedAt v \<noteq> None"
    using that conflict by blast
  have reads: "u \<in> set (table_after hash (FindById (id' u)) rows)"
    "u \<in> set (table_after hash FindAll rows)"
    using assms(2) by simp_all
  show ?thesis
    using byId all conflict free reads kept by (intro conjI allI impI) blast+
qed

text \<open>Bob is soft-deleted: he is hidden, his email can be taken again, and his row stays.\<close>

theorem soft_deleted_hidden_but_stored_witness:
  "findById ''u2'' [alice, bob] = Inl (NotFoundException ''User was not found'') \<and>
   bob \<notin> set (findAll [alice, bob]) \<and>
   (\<forall>m. fst (create toy_hash \<lparr>generated_id = ''u3'', salt = ''s''\<rparr> bob_again [alice, bob])
          \<noteq> Inl (ConflictException m)) \<and>
   bob \<in> set (table_after toy_hash (Create \<lparr>generated_id = ''u3'', salt = ''s''\<rparr> bob_again) [alice, bob])"
  using soft_deleted_hidden_but_stored [of "[alice, bob]" bob bob_again toy_hash
      "\<lparr>generated_id = ''u3'', salt = ''s''\<rparr>"]
  by (simp add: wf_table_def alice_def bob_def bob_again_def)

text \<open>
  C4. For every id for which no non-deleted row exists (the id is absent or the matching
  row is soft-deleted), \<open>update\<close> and \<open>remove\<close> each fail with NotFound and leave the table
  unchanged.
\<close>

theorem update_remove_not_found:
  assumes "\<forall>u\<in>set rows. id' u = i \<longrightarrow> deletedAt u \<noteq> None"
  shows "update i patch rows = (Inl (NotFoundException ''User was not found''), rows) \<and>
         remove now i rows = (Inl (NotFoundException ''User was not found''), rows)"
  using assms by (rule no_active_row_not_found)

text \<open>The id of soft-deleted Bob, and an id that is not in the table.\<close>

theorem update_remove_not_found_witness:
  "update ''u2'' rename [alice, bob] = (Inl (NotFoundException ''User was not found''), [alice, bob]) \<and>
   remove 2000 ''u2'' [alice, bob] = (Inl (NotFoundException ''User was not found''), [alice, bob]) \<and>
   update ''u9'' rename [alice, bob] = (Inl (NotFoundException ''User was not found''), [alice, bob]) \<and>
   remove 2000 ''u9'' [alice, bob] = (Inl (NotFoundException ''User was not found''), [alice, bob])"
  using update_remove_not_found [of "[alice, bob]" "''u2''" rename 2000]
    update_remove_not_found [of "[alice, bob]" "''u9''" rename 2000]
  by (simp add: alice_def bob_def)

text \<open>
  C5. For a known-request error of the ORM client the filter answers by its code:
  P2002 with 409 and \<open>Resource already exists\<close>, P2003 with 400, P2025 with 404, and every
  other code with 500 and the generic internal-server-error message (and a log line).
  The errors field is null in each case.
\<close>

theorem prisma_known_error_mapping:
  "catch now url (PrismaClientKnownRequestError code) =
     Inr (\<lparr>success = False,
           statusCode = (if code = ''P2002'' then 409 else if code = ''P2003'' then 400
                         else if code = ''P2025'' then 404 else 500),
           message = JStr (if code = ''P2002'' then ''Resource already exists''
                           else if code = ''P2003'' then ''Related resource not found''
                           else if code = ''P2025'' then ''Resource not found''
                           else ''Internal server error''),
           errors = None, timestamp = now, path = url\<rparr>,
          if code \<in> {''P2002'', ''P2003'', ''P2025''} then [] else [''Unhandled Prisma error:''])"
  by (simp add: catch_def respond_def UNIQUE_CONSTRAINT_def FOREIGN_KEY_CONSTRAINT_def
      RECORD_NOT_FOUND_def HttpStatus_CONFLICT_def HttpStatus_BAD_REQUEST_def
      HttpStatus_NOT_FOUND_def HttpStatus_INTERNAL_SERVER_ERROR_def RESOURCE_ALREADY_EXISTS_def
      RELATED_RESOURCE_NOT_FOUND_def RESOURCE_NOT_FOUND_def INTERNAL_SERVER_ERROR_def)

theorem prisma_known_error_mapping_witness:
  "catch ''2026-01-01T00:00:00.000Z'' ''/users'' (PrismaClientKnownRequestError ''P2002'') =
     Inr (\<lparr>success = False, statusCode = 409, message = JStr ''Resource already exists'',
           errors = None, timestamp = ''2026-01-01T00:00:00.000Z'', path = ''/users''\<rparr>, []) \<and>
   catch ''2026-01-01T00:00:00.000Z'' ''/users'' (PrismaClientKnownRequestError ''P2034'') =
     Inr (\<lparr>success = False, statusCode = 500, message = JStr ''Internal server error'',
           errors = None, timestamp = ''2026-01-01T00:00:00.000Z'', path = ''/users''\<rparr>,
          [''Unhandled Prisma error:''])"
  using prisma_known_error_mapping [of "''2026-01-01T00:00:00.000Z''" "''/users''" "''P2002''"]
    prisma_known_error_mapping [of "''2026-01-01T00:00:00.000Z''" "''/users''" "''P2034''"]
  by simp

text \<open>
  C6. The claim is that the grouping keys each message by its first
  whitespace-separated token. The code cuts at the first space character only: a
  message whose first word ends in a tab is filed under everything up to the first
  space.
\<close>

theorem grouping_first_token_counterexample:
  "formatValidationErrors (map JStr [tab_message]) \<noteq>
     Inr (group_by_key first_token_spec [tab_message])"
proof
  assume eq: "formatValidationErrors (map JStr [tab_message]) =
     Inr (group_by_key first_token_spec [tab_message])"
  have a: "formatValidationErrors (map JStr [tab_message]) =
     Inr [''email'' @ [CHR 0x09] @ ''must'' \<mapsto> [tab_message]]"
    by (simp add: formatValidationErrors_def field_of_def object_prototype_keys_def Let_def
        tab_message_def)
  have b: "group_by_key first_token_spec [tab_message] ''email'' = Some [tab_message]"
    by (simp add: group_by_key_def first_token_spec_def is_whitespace_def tab_message_def)
  from eq a have "group_by_key first_token_spec [tab_message] =
     [''email'' @ [CHR 0x09] @ ''must'' \<mapsto> [tab_message]]"
    by simp
  then have "group_by_key first_token_spec [tab_message] ''email'' = None"
    by simp
  with b show False by simp
qed

text \<open>
  C6, as amended. For every list of message strings in which no message's text before
  its first space character is a property name that a plain object inherits, the
  grouping returns the record keyed by that text (the whole message when it has no
  space), each key holding its messages in their order; in particular the two-message
  example of the specification groups under \<open>email\<close> and \<open>password\<close>.
\<close>

theorem grouping_by_text_before_first_space:
  "((\<forall>m\<in>set messages. takeWhile (\<lambda>c. c \<noteq> CHR '' '') m \<notin> set object_prototype_keys) \<longrightarrow>
     formatValidationErrors (map JStr messages) =
       Inr (group_by_key (takeWhile (\<lambda>c. c \<noteq> CHR '' '')) messages)) \<and>
   formatValidationErrors
     [JStr ''email must be an email'',
      JStr ''password must be longer than or equal to 8 characters''] =
   Inr [''email'' \<mapsto> [''email must be an email''],
        ''password'' \<mapsto> [''password must be longer than or equal to 8 characters'']]"
proof (intro conjI impI)
  assume "\<forall>m\<in>set messages. takeWhile (\<lambda>c. c \<noteq> CHR '' '') m \<notin> set object_prototype_keys"
  then have "\<forall>m\<in>set messages. field_of m \<notin> set object_prototype_keys"
    by (simp add: field_of_takeWhile)
  from format_loop_strings [OF this, of Map.empty]
  have "formatValidationErrors (map JStr messages) = Inr (group_by_key field_of messages)"
    by (simp add: formatValidationErrors_def group_by_key_def cong: if_cong)
  moreover have "field_of = takeWhile (\<lambda>c. c \<noteq> CHR '' '')"
    by (rule ext) (rule field_of_takeWhile)
  ultimately show "formatValidationErrors (map JStr messages) =
       Inr (group_by_key (takeWhile (\<lambda>c. c \<noteq> CHR '' '')) messages)"
    by simp
next
  show "formatValidationErrors
     [JStr ''email must be an email'',
      JStr ''password must be longer than or equal to 8 characters''] =
   Inr [''email'' \<mapsto> [''email must be an email''],
        ''password'' \<mapsto> [''password must be longer than or equal to 8 characters'']]"
    by (simp add: formatValidationErrors_def field_of_def object_prototype_keys_def Let_def)
qed

text \<open>Two messages on one field and one on another, and the tab message under its real key.\<close>

theorem grouping_by_text_before_first_space_witness:
  "(\<exists>g. formatValidationErrors
          (map JStr [''email must be an email'', ''password is too short'',
                     ''email should not be empty'', tab_message]) = Inr g \<and>
        g ''email'' = Some [''email must be an email'', ''email should not be empty''] \<and>
        g ''password'' = Some [''password is too short''] \<and>
        g (''email'' @ [CHR 0x09] @ ''must'') = Some [tab_message] \<and>
        g ''lastName'' = None)"
proof -
  have "formatValidationErrors
          (map JStr [''email must be an email'', ''password is too short'',
                     ''email should not be empty'', tab_message]) =
        Inr (group_by_key (takeWhile (\<lambda>c. c \<noteq> CHR '' ''))
               [''email must be an email'', ''password is too short'',
                ''email should not be empty'', tab_message])"
    using grouping_by_text_before_first_space [of
        "[''email must be an email'', ''password is too short'',
          ''email should not be empty'', tab_message]"]
    by (simp add: object_prototype_keys_def tab_message_def)
  then show ?thesis
    by (simp add: group_by_key_def tab_message_def)
qed

text \<open>
  C7. With the skip-transform marker on the handler or on its class the interceptor
  returns the handler's data as it is; otherwise it returns exactly the object
  \<open>{success: true, data, timestamp}\<close>, whatever the data, null and undefined included.
\<close>

theorem intercept_skip_or_wrap:
  "intercept now (marker on_handler) (marker on_class) data =
     (if on_handler \<or> on_class then data
      else JObj [(''success'', JBool True), (''data'', data), (''timestamp'', JStr now)])"
  by (simp add: intercept_def marker_def)

theorem intercept_skip_or_wrap_witness:
  "intercept ''2026-01-01T00:00:00.000Z'' (marker False) (marker False) JUndefined =
     JObj [(''success'', JBool True), (''data'', JUndefined),
           (''timestamp'', JStr ''2026-01-01T00:00:00.000Z'')] \<and>
   intercept ''2026-01-01T00:00:00.000Z'' (marker False) (marker True) JNull = JNull \<and>
   intercept ''2026-01-01T00:00:00.000Z'' (marker True) (marker False) (JNum 7) = JNum 7"
  using intercept_skip_or_wrap [of "''2026-01-01T00:00:00.000Z''" False False JUndefined]
    intercept_skip_or_wrap [of "''2026-01-01T00:00:00.000Z''" False True JNull]
    intercept_skip_or_wrap [of "''2026-01-01T00:00:00.000Z''" True False "JNum 7"]
  by simp

text \<open>
  C8. For an id with a matching non-deleted row \<open>u\<close> (ids being unique), \<open>remove\<close>
  succeeds and the table it leaves is the old one with \<open>u\<close>, at its position, replaced
  by \<open>u\<close> with deletedAt set to the current time: no other column of the row and no
  other row changes, and no row is dropped.
\<close>

theorem remove_sets_deletedAt_only:
  assumes "wf_table rows" and "u \<in> set rows" and "id' u = i" and "deletedAt u = None"
  shows "\<exists>k<length rows. rows ! k = u \<and>
           remove now i rows = (Inr (), rows[k := u\<lparr>deletedAt := Some now\<rparr>])"
proof -
  let ?w = "\<lparr>where_id = Some i, where_email = None, where_deletedAt = Some None\<rparr>"
  let ?d = "\<lparr>data_firstName = None, data_lastName = None, data_email = None,
             data_password = None, data_deletedAt = Some (Some now)\<rparr>"
  have "matches ?w u" using assms(3,4) by (simp add: matches_def)
  with assms(2) have "find (matches ?w) rows \<noteq> None"
    by (auto simp: find_None_iff_no_match)
  then obtain v where v: "find (matches ?w) rows = Some v" by blast
  from find_Some_in_set [OF v] have "id' v = id' u"
    using assms(3) by (simp add: matches_def)
  from wf_find_unique [OF assms(1,2) v this] have vu: "v = u" .
  from update_first_index [OF v, of "apply_data ?d"] obtain k where
    k: "k < length rows" "rows ! k = v" "update_first (matches ?w) (apply_data ?d) rows = rows[k := apply_data ?d v]"
    by blast
  have "apply_data ?d u = u\<lparr>deletedAt := Some now\<rparr>"
    by (simp add: apply_data_def)
  moreover have "\<not> email_taken (u\<lparr>deletedAt := Some now\<rparr>) (remove1 u rows)"
    by (simp add: email_taken_def)
  ultimately have "k < length rows \<and> rows ! k = u \<and>
      remove now i rows = (Inr (), rows[k := u\<lparr>deletedAt := Some now\<rparr>])"
    using k v vu by (simp add: remove_def findFirst_def prisma_update_def)
  then show ?thesis by blast
qed

text \<open>Removing Alice stamps her row and leaves Bob's alone.\<close>

theorem remove_sets_deletedAt_only_witness:
  "remove 2000 ''u1'' [alice, bob] = (Inr (), [alice\<lparr>deletedAt := Some 2000\<rparr>, bob])"
proof -
  have "wf_table [alice, bob]" by (simp add: wf_table_def alice_def bob_def)
  moreover have "alice \<in> set [alice, bob]" by simp
  moreover have "id' alice = ''u1''" "deletedAt alice = None" by (simp_all add: alice_def)
  ultimately obtain k where k: "k < length [alice, bob]" "[alice, bob] ! k = alice"
    "remove 2000 ''u1'' [alice, bob] = (Inr (), [alice, bob][k := alice\<lparr>deletedAt := Some 2000\<rparr>])"
    using remove_sets_deletedAt_only [of "[alice, bob]" alice "''u1''" 2000] by blast
  have "alice \<noteq> bob" by (simp add: alice_def bob_def)
  with k(1,2) have "k = 0" by (cases k) auto
  with k(3) show ?thesis by simp
qed

text \<open>
  C9. The errors field of the body is non-null only in the validation case (a
  \<open>BadRequestException\<close> whose response object carries an array under \<open>message\<close>). For
  every other exception the filter does produce a body, and its errors field is null.
\<close>

theorem errors_only_for_validation:
  "(\<not> is_validation_case exc \<longrightarrow>
      (\<exists>env logs. catch now url exc = Inr (env, logs) \<and> errors env = None)) \<and>
   (\<forall>env logs. catch now url exc = Inr (env, logs) \<longrightarrow>
      (errors env \<noteq> None) = is_validation_case exc)"
proof (intro conjI allI impI)
  assume "\<not> is_validation_case exc"
  then show "\<exists>env logs. catch now url exc = Inr (env, logs) \<and> errors env = None"
    by (cases exc)
       (auto simp: catch_def is_validation_case_def respond_def typeof_object_def has_property_def
          property_def get_prop_def
          split: if_splits response.splits js_val.splits option.splits)
next
  fix env logs
  assume "catch now url exc = Inr (env, logs)"
  then show "(errors env \<noteq> None) = is_validation_case exc"
    by (cases exc)
       (auto simp: catch_def is_validation_case_def respond_def typeof_object_def has_property_def
          property_def get_prop_def
          split: if_splits response.splits js_val.splits sum.splits option.splits)
qed

text \<open>
  A NotFound response object has null errors; a validation response has the grouped
  messages.
\<close>

theorem errors_only_for_validation_witness:
  "(\<exists>env logs.
      catch ''t'' ''/users/7''
        (HttpException False 404
           (RObject [(''message'', JStr ''User was not found''), (''error'', JStr ''Not Found''),
                     (''statusCode'', JNum 404)])) = Inr (env, logs) \<and>
      errors env = None) \<and>
   (\<exists>env logs.
      catch ''t'' ''/users''
        (HttpException True 400
           (RObject [(''message'', JArr [JStr ''email must be an email'']),
                     (''error'', JStr ''Bad Request''), (''statusCode'', JNum 400)])) = Inr (env, logs) \<and>
      errors env \<noteq> None)"
proof -
  let ?nf = "HttpException False 404
           (RObject [(''message'', JStr ''User was not found''), (''error'', JStr ''Not Found''),
                     (''statusCode'', JNum 404)])"
  let ?bad = "HttpException True 400
           (RObject [(''message'', JArr [JStr ''email must be an email'']),
                     (''error'', JStr ''Bad Request''), (''statusCode'', JNum 400)])"
  have "\<not> is_validation_case ?nf" by (simp add: is_validation_case_def)
  with errors_only_for_validation [of ?nf "''t''" "''/users/7''"]
  have first: "\<exists>env logs. catch ''t'' ''/users/7'' ?nf = Inr (env, logs) \<and> errors env = None"
    by blast
  have run: "catch ''t'' ''/users'' ?bad =
      Inr (respond ''t'' ''/users'' 400 (JStr VALIDATION_FAILED)
             (Some [''email'' \<mapsto> [''email must be an email'']]), [])"
    by (simp add: catch_def typeof_object_def has_property_def property_def get_prop_def
        formatValidationErrors_def field_of_def object_prototype_keys_def Let_def)
  have "is_validation_case ?bad" by (simp add: is_validation_case_def)
  with errors_only_for_validation [of ?bad "''t''" "''/users''"] run
  have "errors (respond ''t'' ''/users'' 400 (JStr VALIDATION_FAILED)
             (Some [''email'' \<mapsto> [''email must be an email'']])) \<noteq> None"
    by blast
  with run first show ?thesis by blast
qed

text \<open>
  C10. In a table with unique ids a soft-deleted row \<open>u\<close> survives every sequence of
  service requests unchanged: after the run it is still stored, it is the only row with
  its id, \<open>update\<close> and \<open>remove\<close> on its id are refused with NotFound and write nothing,
  and \<open>create\<close> only appends.
\<close>

theorem soft_delete_is_permanent:
  assumes "wf_table rows" and "u \<in> set rows" and "deletedAt u \<noteq> None"
  shows "u \<in> set (run hash requests rows) \<and>
         (\<forall>r\<in>set (run hash requests rows). id' r = id' u \<longrightarrow> r = u) \<and>
         update (id' u) patch (run hash requests rows) =
           (Inl (NotFoundException ''User was not found''), run hash requests rows) \<and>
         remove now (id' u) (run hash requests rows) =
           (Inl (NotFoundException ''User was not found''), run hash requests rows) \<and>
         (\<exists>new. snd (create hash env dto (run hash requests rows)) = run hash requests rows @ new)"
proof -
  let ?rows = "run hash requests rows"
  have wf: "wf_table ?rows" using assms(1) by (rule wf_run)
  have mem: "u \<in> set ?rows" using assms by (rule deleted_kept_by_run)
  have uniq: "\<forall>r\<in>set ?rows. id' r = id' u \<longrightarrow> r = u"
    using wf mem by (auto simp: wf_table_def distinct_map inj_on_def)
  then have "\<forall>r\<in>set ?rows. id' r = id' u \<longrightarrow> deletedAt r \<noteq> None"
    using assms(3) by auto
  from no_active_row_not_found [OF this]
  have nf: "update (id' u) patch ?rows = (Inl (NotFoundException ''User was not found''), ?rows) \<and>
         remove now (id' u) ?rows = (Inl (NotFoundException ''User was not found''), ?rows)" .
  have "\<exists>new. snd (create hash env dto ?rows) = ?rows @ new"
    using create_cases [of hash env dto ?rows "fst (create hash env dto ?rows)" "snd (create hash env dto ?rows)"]
    by auto
  with mem uniq nf show ?thesis by simp
qed

text \<open>Bob stays as he is through an update, a removal and a re-registration of his email.\<close>

theorem soft_delete_is_permanent_witness:
  "bob \<in> set (run toy_hash
       [Update ''u2'' rename, Remove 3000 ''u2'', FindById ''u2'',
        Create \<lparr>generated_id = ''u3'', salt = ''s''\<rparr> bob_again, FindByEmail ''bob@example.com'',
        Remove 4000 ''u1'', FindAll] [alice, bob]) \<and>
   update ''u2'' rename [alice, bob] = (Inl (NotFoundException ''User was not found''), [alice, bob])"
  using soft_delete_is_permanent [of "[alice, bob]" bob toy_hash
       "[Update ''u2'' rename, Remove 3000 ''u2'', FindById ''u2'',
        Create \<lparr>generated_id = ''u3'', salt = ''s''\<rparr> bob_again, FindByEmail ''bob@example.com'',
        Remove 4000 ''u1'', FindAll]" rename 5000 "\<lparr>generated_id = ''u4'', salt = ''s''\<rparr>" carol_dto]
    soft_delete_is_permanent [of "[alice, bob]" bob toy_hash "[]" rename 5000
       "\<lparr>generated_id = ''u4'', salt = ''s''\<rparr>" carol_dto]
  by (simp add: wf_table_def alice_def bob_def)

end
